theory Spec2Isabelle
  imports Complex_Main
begin

section \<open>Data model\<close>

text \<open>
  \<^verbatim>\<open>type Product struct { ID int64; Name string; Price float64; Quantity int; Category string }\<close>

  No arithmetic is ever performed on a price by the store: the value is bound to a
  statement parameter and scanned back. The price type is therefore left as a type
  parameter \<open>'f\<close>.
\<close>

record 'f Product =
  ID :: int
  Name :: string
  Price :: 'f
  Quantity :: int
  Category :: string

text \<open>
  Go error values. \<open>ErrNoRows\<close> is \<^verbatim>\<open>sql.ErrNoRows\<close>, \<open>StorageError m\<close> is an error
  reported by the database driver, and \<open>Errorf ctx err\<close> is the value of
  \<^verbatim>\<open>fmt.Errorf(ctx + ": %w", err)\<close>, where \<open>err\<close> is the (possibly nil) operand:
  with a nil operand nothing is wrapped and the verb prints as \<^verbatim>\<open>%!w(<nil>)\<close>.
  A Go \<^verbatim>\<open>error\<close> variable is an \<open>error option\<close>, \<open>None\<close> being nil.
\<close>

datatype error =
    ErrNoRows
  | StorageError string
  | Errorf string "error option"

text \<open>
  \<^verbatim>\<open>errors.Unwrap\<close> and \<^verbatim>\<open>errors.Is\<close> on these values. \<open>Is\<close> walks the chain of wrapped
  errors and compares each link with the target. Against the sentinel \<open>ErrNoRows\<close> the
  comparison is Go's. Against any other target, Go compares by identity of the error
  value and this model by structure: there only a negative answer of \<open>Is\<close> carries over
  to \<^verbatim>\<open>errors.Is\<close>.
\<close>

fun Unwrap :: "error \<Rightarrow> error option" where
  "Unwrap (Errorf ctx err) = err"
| "Unwrap ErrNoRows = None"
| "Unwrap (StorageError m) = None"

fun Is :: "error \<Rightarrow> error \<Rightarrow> bool" where
  "Is ErrNoRows target = (ErrNoRows = target)"
| "Is (StorageError m) target = (StorageError m = target)"
| "Is (Errorf ctx None) target = (Errorf ctx None = target)"
| "Is (Errorf ctx (Some e)) target = (Errorf ctx (Some e) = target \<or> Is e target)"

text \<open>The text of an error, \<^verbatim>\<open>err.Error()\<close>.\<close>

fun Error :: "error \<Rightarrow> string" where
  "Error ErrNoRows = ''sql: no rows in result set''"
| "Error (StorageError m) = m"
| "Error (Errorf ctx None) = ctx @ '': %!w(<nil>)''"
| "Error (Errorf ctx (Some e)) = ctx @ '': '' @ Error e"

section \<open>The database handle\<close>

text \<open>
  The store holds one field, \<^verbatim>\<open>db *sql.DB\<close>; the state of the store is the state of the
  database behind that handle:
  \<^item> \<open>table\<close>: the committed rows of table \<^verbatim>\<open>products\<close>, in storage order;
  \<^item> \<open>seq\<close>: the largest id the \<^verbatim>\<open>AUTOINCREMENT\<close> key has ever handed out;
  \<^item> \<open>faults\<close>: what the storage layer will do on the coming driver calls, one
    entry per call in call order. \<open>None\<close> lets the call through, \<open>Some m\<close> makes it
    fail with driver error \<open>m\<close>; past the end of the list every call goes through.
\<close>

record 'f DB =
  table :: "'f Product list"
  seq :: int
  faults :: "string option list"

type_synonym 'f ProductStore = "'f DB"

definition next_fault :: "'f DB \<Rightarrow> string option \<times> 'f DB" where
  "next_fault db =
     (case faults db of
        [] \<Rightarrow> (None, db)
      | f # fs \<Rightarrow> (f, db\<lparr>faults := fs\<rparr>))"

text \<open>What the coming driver call will meet, and the handle after that call.\<close>

definition hd_fault :: "'f DB \<Rightarrow> string option" where
  "hd_fault db = (case faults db of [] \<Rightarrow> None | f # fs \<Rightarrow> f)"

definition drop_fault :: "'f DB \<Rightarrow> 'f DB" where
  "drop_fault db = db\<lparr>faults := tl (faults db)\<rparr>"

text \<open>No driver call will fail.\<close>

definition fault_free :: "'f DB \<Rightarrow> bool" where
  "fault_free db = list_all (\<lambda>f. f = None) (faults db)"

text \<open>\<^verbatim>\<open>SELECT * FROM products WHERE id = ?\<close>, first row.\<close>

definition find_row :: "int \<Rightarrow> 'f Product list \<Rightarrow> 'f Product option" where
  "find_row pid rs = find (\<lambda>r. ID r = pid) rs"

text \<open>
  \<^verbatim>\<open>ps.db.QueryRow(...).Scan(...)\<close>: \<^verbatim>\<open>QueryRow\<close> itself reports nothing, every error
  surfaces from \<^verbatim>\<open>Scan\<close>, which yields \<^verbatim>\<open>sql.ErrNoRows\<close> when the result set is empty.
\<close>

definition QueryRow_Scan :: "int \<Rightarrow> 'f DB \<Rightarrow> (error + 'f Product) \<times> 'f DB" where
  "QueryRow_Scan pid db =
     (case next_fault db of
        (Some m, db1) \<Rightarrow> (Inl (StorageError m), db1)
      | (None, db1) \<Rightarrow>
          (case find_row pid (table db1) of
             None \<Rightarrow> (Inl ErrNoRows, db1)
           | Some r \<Rightarrow> (Inr r, db1)))"

text \<open>
  \<^verbatim>\<open>INSERT INTO products (name, price, quantity, category) VALUES (?, ?, ?, ?)\<close>.
  The key is \<^verbatim>\<open>INTEGER PRIMARY KEY AUTOINCREMENT\<close>: the new id is one more than the
  largest id that ever existed in the table, and the insert fails once the largest
  64-bit id has been used. The result carries the new id for \<^verbatim>\<open>LastInsertId\<close>.
\<close>

definition largest_id :: "'f DB \<Rightarrow> int" where
  "largest_id db = fold max (map ID (table db)) (seq db)"

definition Exec_insert ::
    "string \<Rightarrow> 'f \<Rightarrow> int \<Rightarrow> string \<Rightarrow> 'f DB \<Rightarrow> (error + int) \<times> 'f DB" where
  "Exec_insert name price quantity category db =
     (case next_fault db of
        (Some m, db1) \<Rightarrow> (Inl (StorageError m), db1)
      | (None, db1) \<Rightarrow>
          (if largest_id db1 \<ge> 9223372036854775807
           then (Inl (StorageError ''database or disk is full''), db1)
           else
             (let new_id = largest_id db1 + 1;
                  row = \<lparr>ID = new_id, Name = name, Price = price,
                         Quantity = quantity, Category = category\<rparr>
              in (Inr new_id, db1\<lparr>table := table db1 @ [row], seq := new_id\<rparr>))))"

text \<open>\<^verbatim>\<open>r.LastInsertId()\<close>: the zero value comes with an error.\<close>

definition LastInsertId :: "int \<Rightarrow> 'f DB \<Rightarrow> (int \<times> error option) \<times> 'f DB" where
  "LastInsertId r db =
     (case next_fault db of
        (Some m, db1) \<Rightarrow> ((0, Some (StorageError m)), db1)
      | (None, db1) \<Rightarrow> ((r, None), db1))"

text \<open>\<^verbatim>\<open>UPDATE products SET name = ?, price = ?, quantity = ?, category = ? WHERE id = ?\<close>\<close>

definition set_fields :: "string \<Rightarrow> 'f \<Rightarrow> int \<Rightarrow> string \<Rightarrow> int \<Rightarrow> 'f Product \<Rightarrow> 'f Product" where
  "set_fields name price quantity category pid r =
     (if ID r = pid
      then r\<lparr>Name := name, Price := price, Quantity := quantity, Category := category\<rparr>
      else r)"

definition Exec_update ::
    "string \<Rightarrow> 'f \<Rightarrow> int \<Rightarrow> string \<Rightarrow> int \<Rightarrow> 'f DB \<Rightarrow> error option \<times> 'f DB" where
  "Exec_update name price quantity category pid db =
     (case next_fault db of
        (Some m, db1) \<Rightarrow> (Some (StorageError m), db1)
      | (None, db1) \<Rightarrow>
          (None, db1\<lparr>table := map (set_fields name price quantity category pid) (table db1)\<rparr>))"

text \<open>\<^verbatim>\<open>DELETE FROM products WHERE id = ?\<close>\<close>

definition Exec_delete :: "int \<Rightarrow> 'f DB \<Rightarrow> error option \<times> 'f DB" where
  "Exec_delete pid db =
     (case next_fault db of
        (Some m, db1) \<Rightarrow> (Some (StorageError m), db1)
      | (None, db1) \<Rightarrow> (None, db1\<lparr>table := filter (\<lambda>r. ID r \<noteq> pid) (table db1)\<rparr>))"

text \<open>
  \<^verbatim>\<open>ps.db.Query(listQuery, category)\<close>. With the empty category the statement has no
  placeholder and the driver leaves the surplus argument unused. The result is the
  cursor: the rows still to be delivered.
\<close>

definition Query :: "string \<Rightarrow> 'f DB \<Rightarrow> (error + 'f Product list) \<times> 'f DB" where
  "Query category db =
     (case next_fault db of
        (Some m, db1) \<Rightarrow> (Inl (StorageError m), db1)
      | (None, db1) \<Rightarrow>
          (if category \<noteq> ''''
           then (Inr (filter (\<lambda>r. Category r = category) (table db1)), db1)
           else (Inr (table db1), db1)))"

section \<open>Single-row operations\<close>

text \<open>\<^verbatim>\<open>func (ps *ProductStore) GetProduct(id int64) (*Product, error)\<close>\<close>

definition GetProduct :: "int \<Rightarrow> 'f ProductStore \<Rightarrow> (error + 'f Product) \<times> 'f ProductStore" where
  "GetProduct pid ps =
     (case QueryRow_Scan pid ps of
        (Inl err, ps1) \<Rightarrow> (Inl (Errorf ''get product'' (Some err)), ps1)
      | (Inr p, ps1) \<Rightarrow> (Inr p, ps1))"

text \<open>
  \<^verbatim>\<open>func (ps *ProductStore) CreateProduct(product *Product) error\<close>. The struct behind
  the pointer is returned next to the error. \<^verbatim>\<open>product.ID, err = r.LastInsertId()\<close>
  stores the id before \<open>err\<close> is looked at.
\<close>

definition CreateProduct ::
    "'f Product \<Rightarrow> 'f ProductStore \<Rightarrow> (error option \<times> 'f Product) \<times> 'f ProductStore" where
  "CreateProduct product ps =
     (case Exec_insert (Name product) (Price product) (Quantity product) (Category product) ps of
        (Inl err, ps1) \<Rightarrow> ((Some (Errorf ''insert product'' (Some err)), product), ps1)
      | (Inr r, ps1) \<Rightarrow>
          (case LastInsertId r ps1 of
             ((new_id, err), ps2) \<Rightarrow>
               (let product' = product\<lparr>ID := new_id\<rparr>
                in if err \<noteq> None
                   then ((Some (Errorf ''get product id'' err), product'), ps2)
                   else ((None, product'), ps2))))"

text \<open>\<^verbatim>\<open>func (ps *ProductStore) UpdateProduct(product *Product) error\<close>\<close>

definition UpdateProduct :: "'f Product \<Rightarrow> 'f ProductStore \<Rightarrow> error option \<times> 'f ProductStore" where
  "UpdateProduct product ps =
     (case GetProduct (ID product) ps of
        (Inl err, ps1) \<Rightarrow> (Some (Errorf ''get product'' (Some err)), ps1)
      | (Inr _, ps1) \<Rightarrow>
          (case Exec_update (Name product) (Price product) (Quantity product)
                  (Category product) (ID product) ps1 of
             (Some err, ps2) \<Rightarrow> (Some (Errorf ''update product'' (Some err)), ps2)
           | (None, ps2) \<Rightarrow> (None, ps2)))"

text \<open>\<^verbatim>\<open>func (ps *ProductStore) DeleteProduct(id int64) error\<close>\<close>

definition DeleteProduct :: "int \<Rightarrow> 'f ProductStore \<Rightarrow> error option \<times> 'f ProductStore" where
  "DeleteProduct pid ps =
     (case GetProduct pid ps of
        (Inl err, ps1) \<Rightarrow> (Some (Errorf ''get product'' (Some err)), ps1)
      | (Inr _, ps1) \<Rightarrow>
          (case Exec_delete pid ps1 of
             (Some err, ps2) \<Rightarrow> (Some (Errorf ''delete product'' (Some err)), ps2)
           | (None, ps2) \<Rightarrow> (None, ps2)))"

section \<open>Listing\<close>

text \<open>
  The loop of \<open>ListProducts\<close>:
  \<^verbatim>\<open>
  for rows.Next() {
      var p Product
      if err = rows.Scan(...); err != nil { return nil, fmt.Errorf("list products: %w", err) }
      products = append(products, &p)
  }
  return products, nil
  \<close>
  \<^verbatim>\<open>rows.Next()\<close> is false at the end of the result set and also when fetching the
  next row fails; the two are told apart by \<^verbatim>\<open>rows.Err()\<close>, which the loop does not call.
\<close>

fun scan_rows ::
    "'f Product list \<Rightarrow> 'f Product list \<Rightarrow> 'f DB \<Rightarrow> (error + 'f Product list) \<times> 'f DB" where
  "scan_rows [] products db = (Inr products, snd (next_fault db))"
| "scan_rows (r # rs) products db =
     (case next_fault db of
        (Some m, db1) \<Rightarrow> (Inr products, db1)
      | (None, db1) \<Rightarrow>
          (case next_fault db1 of
             (Some m, db2) \<Rightarrow> (Inl (Errorf ''list products'' (Some (StorageError m))), db2)
           | (None, db2) \<Rightarrow> scan_rows rs (products @ [r]) db2))"

text \<open>\<^verbatim>\<open>func (ps *ProductStore) ListProducts(category string) ([]*Product, error)\<close>\<close>

definition ListProducts ::
    "string \<Rightarrow> 'f ProductStore \<Rightarrow> (error + 'f Product list) \<times> 'f ProductStore" where
  "ListProducts category ps =
     (case Query category ps of
        (Inl err, ps1) \<Rightarrow> (Inl (Errorf ''list products'' (Some err)), ps1)
      | (Inr rows, ps1) \<Rightarrow> scan_rows rows [] ps1)"

section \<open>Batch update\<close>

text \<open>
  \<^verbatim>\<open>tx, err := ps.db.Begin()\<close>. The transaction works on its own copy of the rows;
  the committed table changes only when \<^verbatim>\<open>tx.Commit()\<close> succeeds. A commit or a
  rollback that reports an error publishes nothing.
\<close>

record 'f Tx =
  pending :: "'f Product list"

definition Begin :: "'f DB \<Rightarrow> (error + 'f Tx) \<times> 'f DB" where
  "Begin db =
     (case next_fault db of
        (Some m, db1) \<Rightarrow> (Inl (StorageError m), db1)
      | (None, db1) \<Rightarrow> (Inr \<lparr>pending = table db1\<rparr>, db1))"

text \<open>\<^verbatim>\<open>tx.Exec("UPDATE products SET quantity = ? WHERE id = ?", quantity, id)\<close>\<close>

definition set_quantity :: "int \<Rightarrow> int \<Rightarrow> 'f Product \<Rightarrow> 'f Product" where
  "set_quantity quantity pid r = (if ID r = pid then r\<lparr>Quantity := quantity\<rparr> else r)"

definition tx_Exec_update ::
    "int \<Rightarrow> int \<Rightarrow> 'f Tx \<Rightarrow> 'f DB \<Rightarrow> (error option \<times> 'f Tx) \<times> 'f DB" where
  "tx_Exec_update quantity pid tx db =
     (case next_fault db of
        (Some m, db1) \<Rightarrow> ((Some (StorageError m), tx), db1)
      | (None, db1) \<Rightarrow>
          ((None, tx\<lparr>pending := map (set_quantity quantity pid) (pending tx)\<rparr>), db1))"

definition Rollback :: "'f Tx \<Rightarrow> 'f DB \<Rightarrow> error option \<times> 'f DB" where
  "Rollback tx db =
     (case next_fault db of
        (Some m, db1) \<Rightarrow> (Some (StorageError m), db1)
      | (None, db1) \<Rightarrow> (None, db1))"

definition Commit :: "'f Tx \<Rightarrow> 'f DB \<Rightarrow> error option \<times> 'f DB" where
  "Commit tx db =
     (case next_fault db of
        (Some m, db1) \<Rightarrow> (Some (StorageError m), db1)
      | (None, db1) \<Rightarrow> (None, db1\<lparr>table := pending tx\<rparr>))"

text \<open>
  The loop of \<open>BatchUpdateInventory\<close> over the pairs of the map, in the order the
  iteration happens to visit them. \<open>Inl\<close> is an early \<^verbatim>\<open>return\<close> out of the function,
  \<open>Inr\<close> the transaction after the last pair.
  \<^verbatim>\<open>
  if _, err = ps.GetProduct(id); err != nil {
      if err = tx.Rollback(); err != nil { return fmt.Errorf("rollback: %w", err) }
      return fmt.Errorf("get products: %w", err)
  }
  if _, err = tx.Exec(...); err != nil {
      if err = tx.Rollback(); err != nil { return fmt.Errorf("rollback: %w", err) }
      return fmt.Errorf("update products: %w", err)
  }
  \<close>
  The one variable \<open>err\<close> is assigned again by \<^verbatim>\<open>err = tx.Rollback()\<close>, so the second
  \<^verbatim>\<open>fmt.Errorf\<close> of each branch receives the outcome of the rollback.
  The existence check goes through \<^verbatim>\<open>ps.db\<close>, outside the transaction: it reads the
  committed table. The update goes through \<^verbatim>\<open>tx\<close>: it writes the pending rows.
\<close>

fun update_pairs ::
    "(int \<times> int) list \<Rightarrow> 'f Tx \<Rightarrow> 'f ProductStore \<Rightarrow> (error + 'f Tx) \<times> 'f ProductStore" where
  "update_pairs [] tx ps = (Inr tx, ps)"
| "update_pairs ((pid, quantity) # updates) tx ps =
     (case GetProduct pid ps of
        (Inl err, ps1) \<Rightarrow>
          (case Rollback tx ps1 of
             (err, ps2) \<Rightarrow>
               (if err \<noteq> None then (Inl (Errorf ''rollback'' err), ps2)
                else (Inl (Errorf ''get products'' err), ps2)))
      | (Inr _, ps1) \<Rightarrow>
          (case tx_Exec_update quantity pid tx ps1 of
             ((Some err, tx1), ps2) \<Rightarrow>
               (case Rollback tx1 ps2 of
                  (err, ps3) \<Rightarrow>
                    (if err \<noteq> None then (Inl (Errorf ''rollback'' err), ps3)
                     else (Inl (Errorf ''update products'' err), ps3)))
           | ((None, tx1), ps2) \<Rightarrow> update_pairs updates tx1 ps2))"

text \<open>\<^verbatim>\<open>func (ps *ProductStore) BatchUpdateInventory(updates map[int64]int) error\<close>\<close>

definition BatchUpdateInventory ::
    "(int \<times> int) list \<Rightarrow> 'f ProductStore \<Rightarrow> error option \<times> 'f ProductStore" where
  "BatchUpdateInventory updates ps =
     (case Begin ps of
        (Inl err, ps1) \<Rightarrow> (Some (Errorf ''begin tx'' (Some err)), ps1)
      | (Inr tx, ps1) \<Rightarrow>
          (case update_pairs updates tx ps1 of
             (Inl e, ps2) \<Rightarrow> (Some e, ps2)
           | (Inr tx1, ps2) \<Rightarrow>
               (case Commit tx1 ps2 of
                  (Some err, ps3) \<Rightarrow> (Some (Errorf ''commit'' (Some err)), ps3)
                | (None, ps3) \<Rightarrow> (None, ps3))))"

text \<open>
  What the \<open>i\<close>-th coming driver call will meet (the coming call is number 0).
\<close>

definition fault_at :: "'f DB \<Rightarrow> nat \<Rightarrow> string option" where
  "fault_at db i = hd_fault ((drop_fault ^^ i) db)"

text \<open>
  The driver calls of \<open>BatchUpdateInventory\<close>, while no pair fails, are \<^verbatim>\<open>Begin\<close> (call 0),
  then for the \<open>j\<close>-th visited pair its existence check (call \<open>2 * j + 1\<close>) and its
  \<^verbatim>\<open>UPDATE\<close> (call \<open>2 * j + 2\<close>). The \<open>j\<close>-th pair goes through when its check meets no
  storage fault and finds a row, and its \<^verbatim>\<open>UPDATE\<close> meets no storage fault; otherwise it
  fails its existence check or its update.
\<close>

definition pair_passes :: "'f ProductStore \<Rightarrow> (int \<times> int) list \<Rightarrow> nat \<Rightarrow> bool" where
  "pair_passes ps updates j =
     (fault_at ps (2 * j + 1) = None \<and>
      find_row (fst (updates ! j)) (table ps) \<noteq> None \<and>
      fault_at ps (2 * j + 2) = None)"

section \<open>The scenario of the specification\<close>

definition Widget :: "real Product" where
  "Widget = \<lparr>ID = 1, Name = ''Widget'', Price = 9.99, Quantity = 10, Category = ''tools''\<rparr>"

definition Gadget :: "real Product" where
  "Gadget = \<lparr>ID = 2, Name = ''Gadget'', Price = 19.99, Quantity = 5, Category = ''tools''\<rparr>"

definition store :: "real Product list \<Rightarrow> string option list \<Rightarrow> real ProductStore" where
  "store rows fs = \<lparr>table = rows, seq = 2, faults = fs\<rparr>"

section \<open>The fault script\<close>

lemma next_fault_eq: "next_fault db = (hd_fault db, drop_fault db)"
  by (cases "faults db") (simp_all add: next_fault_def hd_fault_def drop_fault_def)

lemma hd_fault_free [simp]: "fault_free db \<Longrightarrow> hd_fault db = None"
  by (cases "faults db") (simp_all add: fault_free_def hd_fault_def)

lemma drop_fault_free [simp]: "fault_free db \<Longrightarrow> fault_free (drop_fault db)"
  by (cases "faults db") (simp_all add: fault_free_def drop_fault_def)

lemma drop_fault_fields [simp]:
  "table (drop_fault db) = table db" "seq (drop_fault db) = seq db"
  by (simp_all add: drop_fault_def)

lemma GetProduct_eq:
  "GetProduct pid ps =
     (case hd_fault ps of
        Some m \<Rightarrow> Inl (Errorf ''get product'' (Some (StorageError m)))
      | None \<Rightarrow> (case find_row pid (table ps) of
                   None \<Rightarrow> Inl (Errorf ''get product'' (Some ErrNoRows))
                 | Some r \<Rightarrow> Inr r),
      drop_fault ps)"
  by (simp add: GetProduct_def QueryRow_Scan_def next_fault_eq split: option.splits)

lemma Rollback_eq: "Rollback tx ps = (map_option StorageError (hd_fault ps), drop_fault ps)"
  by (simp add: Rollback_def next_fault_eq split: option.splits)

section \<open>Properties of listing\<close>

lemma scan_rows_fault_free:
  "fault_free db \<Longrightarrow> fst (scan_rows rs products db) = Inr (products @ rs)"
  by (induction rs arbitrary: products db) (simp_all add: next_fault_eq)

lemma scan_rows_table: "table (snd (scan_rows rs products db)) = table db"
  by (induction rs arbitrary: products db) (simp_all add: next_fault_eq split: option.splits)

lemma ListProducts_fault_free:
  "fault_free ps \<Longrightarrow>
   fst (ListProducts category ps) =
     Inr (if category \<noteq> '''' then filter (\<lambda>r. Category r = category) (table ps)
          else table ps)"
  by (simp add: ListProducts_def Query_def next_fault_eq scan_rows_fault_free)

text \<open>
  C2. When no driver call fails, \<open>ListProducts\<close> with the empty string applies no
  filter: the result is not an error and is the whole stored table, row for row.
\<close>

theorem ListProducts_empty_category_all_rows:
  "fault_free ps \<Longrightarrow> fst (ListProducts '''' ps) = Inr (table ps)"
  by (simp add: ListProducts_fault_free)

theorem ListProducts_empty_category_all_rows_witness:
  "fault_free (store [Widget, Gadget] [None, None]) \<and>
   fst (ListProducts '''' (store [Widget, Gadget] [None, None])) = Inr [Widget, Gadget]"
proof -
  have free: "fault_free (store [Widget, Gadget] [None, None])"
    by (simp add: fault_free_def store_def)
  from ListProducts_empty_category_all_rows [OF free] free show ?thesis
    by (simp add: store_def)
qed

text \<open>
  C8. When no driver call fails, \<open>ListProducts\<close> with a non-empty category \<open>C\<close> returns
  exactly the stored rows whose \<open>Category\<close> is \<open>C\<close>, in storage order; when there is no
  such row the result is the empty sequence and not an error.
\<close>

theorem ListProducts_category_filter:
  "category \<noteq> '''' \<Longrightarrow> fault_free ps \<Longrightarrow>
   fst (ListProducts category ps) = Inr (filter (\<lambda>r. Category r = category) (table ps))"
  by (simp add: ListProducts_fault_free)

theorem ListProducts_category_filter_witness:
  "''toys'' \<noteq> '''' \<and> fault_free (store [Widget, Gadget\<lparr>Category := ''toys''\<rparr>] []) \<and>
   fst (ListProducts ''toys'' (store [Widget, Gadget\<lparr>Category := ''toys''\<rparr>] [])) =
     Inr [Gadget\<lparr>Category := ''toys''\<rparr>] \<and>
   fst (ListProducts ''food'' (store [Widget, Gadget\<lparr>Category := ''toys''\<rparr>] [])) = Inr []"
proof -
  have ne: "''toys'' \<noteq> ''''" and ne': "''food'' \<noteq> ''''"
    by simp_all
  have free: "fault_free (store [Widget, Gadget\<lparr>Category := ''toys''\<rparr>] [])"
    by (simp add: fault_free_def store_def)
  from ListProducts_category_filter [OF ne free] ListProducts_category_filter [OF ne' free]
    free
  show ?thesis
    by (simp add: store_def Widget_def Gadget_def)
qed

text \<open>
  C4. A row iteration that fails mid-stream does not make \<open>ListProducts\<close> fail. In
  the store holding Widget and Gadget, let the query, the first \<^verbatim>\<open>rows.Next()\<close> and
  the first \<^verbatim>\<open>rows.Scan\<close> go through and let the second \<^verbatim>\<open>rows.Next()\<close> fail with a
  disk error. The loop ends as if the result set were exhausted and \<open>ListProducts\<close>
  returns the one row read so far with a nil error.
\<close>

theorem ListProducts_iteration_fault_partial_list:
  "fst (ListProducts ''''
          (store [Widget, Gadget] [None, None, None, Some ''disk I/O error''])) =
     Inr [Widget]"
  by (simp add: ListProducts_def Query_def next_fault_def store_def)

section \<open>Properties of the batch update\<close>

lemma update_pairs_table: "table (snd (update_pairs updates tx ps)) = table ps"
proof (induction updates tx ps rule: update_pairs.induct)
  case (1 tx ps)
  then show ?case by simp
next
  case (2 pid quantity updates tx ps)
  then show ?case
    by (simp add: GetProduct_eq Rollback_eq tx_Exec_update_def next_fault_eq
        split: option.splits prod.splits sum.splits)
qed

lemma update_pairs_tableD:
  "update_pairs updates tx ps = (r, ps') \<Longrightarrow> table ps' = table ps"
  using update_pairs_table [of updates tx ps] by simp

lemma BatchUpdateInventory_error_table:
  assumes "BatchUpdateInventory updates ps = (Some e, ps')"
  shows "table ps' = table ps"
  using assms
  by (auto simp: BatchUpdateInventory_def Begin_def Commit_def next_fault_eq
      split: option.splits prod.splits sum.splits dest: update_pairs_tableD)

lemma tx_Exec_update_eq:
  "tx_Exec_update quantity pid tx db =
     (case hd_fault db of
        Some m \<Rightarrow> ((Some (StorageError m), tx), drop_fault db)
      | None \<Rightarrow>
          ((None, tx\<lparr>pending := map (set_quantity quantity pid) (pending tx)\<rparr>), drop_fault db))"
  by (simp add: tx_Exec_update_def next_fault_eq split: option.splits)

text \<open>One round of the loop, by what the storage layer does on its driver calls.\<close>

lemma update_pairs_check_fails:
  "hd_fault ps \<noteq> None \<or> find_row pid (table ps) = None \<Longrightarrow>
   update_pairs ((pid, quantity) # updates) tx ps =
     (Inl (case hd_fault (drop_fault ps) of
             Some m \<Rightarrow> Errorf ''rollback'' (Some (StorageError m))
           | None \<Rightarrow> Errorf ''get products'' None),
      drop_fault (drop_fault ps))"
  by (auto simp: GetProduct_eq Rollback_eq split: option.splits)

lemma update_pairs_update_fails:
  "hd_fault ps = None \<Longrightarrow> find_row pid (table ps) = Some r \<Longrightarrow>
   hd_fault (drop_fault ps) = Some m \<Longrightarrow>
   update_pairs ((pid, quantity) # updates) tx ps =
     (Inl (case hd_fault (drop_fault (drop_fault ps)) of
             Some m' \<Rightarrow> Errorf ''rollback'' (Some (StorageError m'))
           | None \<Rightarrow> Errorf ''update products'' None),
      drop_fault (drop_fault (drop_fault ps)))"
  by (simp add: GetProduct_eq Rollback_eq tx_Exec_update_eq split: option.splits)

lemma update_pairs_continues:
  "hd_fault ps = None \<Longrightarrow> find_row pid (table ps) = Some r \<Longrightarrow>
   hd_fault (drop_fault ps) = None \<Longrightarrow>
   update_pairs ((pid, quantity) # updates) tx ps =
     update_pairs updates (tx\<lparr>pending := map (set_quantity quantity pid) (pending tx)\<rparr>)
       (drop_fault (drop_fault ps))"
  by (simp add: GetProduct_eq tx_Exec_update_eq)

lemma update_pairs_cases:
  obtains (check_fails) "hd_fault ps \<noteq> None \<or> find_row pid (table ps) = None"
  | (update_fails) r m where "hd_fault ps = None" "find_row pid (table ps) = Some r"
      "hd_fault (drop_fault ps) = Some m"
  | (continues) r where "hd_fault ps = None" "find_row pid (table ps) = Some r"
      "hd_fault (drop_fault ps) = None"
  by (cases "hd_fault ps"; cases "find_row pid (table ps)"; cases "hd_fault (drop_fault ps)")
    auto

lemma update_pairs_success:
  "update_pairs updates tx ps = (Inr tx', ps') \<Longrightarrow>
   pending tx' = fold (\<lambda>(pid, q). map (set_quantity q pid)) updates (pending tx) \<and>
   list_all (\<lambda>(pid, q). find_row pid (table ps) \<noteq> None) updates"
proof (induction updates arbitrary: tx ps)
  case Nil
  then show ?case by simp
next
  case (Cons u updates)
  obtain pid quantity where u: "u = (pid, quantity)"
    by (cases u)
  show ?case
  proof (cases rule: update_pairs_cases [where ps = ps and pid = pid])
    case check_fails
    with Cons.prems u show ?thesis
      by (simp add: update_pairs_check_fails del: update_pairs.simps)
  next
    case (update_fails r m)
    with Cons.prems u show ?thesis
      by (simp add: update_pairs_update_fails del: update_pairs.simps)
  next
    case (continues r)
    with Cons.prems u
    have "update_pairs updates (tx\<lparr>pending := map (set_quantity quantity pid) (pending tx)\<rparr>)
            (drop_fault (drop_fault ps)) = (Inr tx', ps')"
      by (simp add: update_pairs_continues del: update_pairs.simps)
    from Cons.IH [OF this] continues u show ?thesis
      by simp
  qed
qed

lemma update_pairs_error_shape:
  "update_pairs updates tx ps = (Inl e, ps') \<Longrightarrow>
   (\<exists>m. e = Errorf ''rollback'' (Some (StorageError m))) \<or>
   e = Errorf ''get products'' None \<or> e = Errorf ''update products'' None"
proof (induction updates arbitrary: tx ps)
  case Nil
  then show ?case by simp
next
  case (Cons u updates)
  let ?R = "\<exists>m. e = Errorf ''rollback'' (Some (StorageError m))"
  let ?G = "e = Errorf ''get products'' None"
  let ?U = "e = Errorf ''update products'' None"
  obtain pid quantity where u: "u = (pid, quantity)"
    by (cases u)
  show ?case
  proof (cases rule: update_pairs_cases [where ps = ps and pid = pid])
    case check_fails
    with Cons.prems u
    have e: "e = (case hd_fault (drop_fault ps) of
                    Some m \<Rightarrow> Errorf ''rollback'' (Some (StorageError m))
                  | None \<Rightarrow> Errorf ''get products'' None)"
      by (simp only: update_pairs_check_fails prod.inject sum.inject)
    show ?thesis
    proof (cases "hd_fault (drop_fault ps)")
      case None
      with e have ?G by (simp only: option.case)
      then have "?G \<or> ?U" by (rule disjI1)
      then show ?thesis by (rule disjI2)
    next
      case (Some m)
      with e have "e = Errorf ''rollback'' (Some (StorageError m))"
        by (simp only: option.case)
      then have ?R by (rule exI)
      then show ?thesis by (rule disjI1)
    qed
  next
    case (update_fails r m)
    with Cons.prems u
    have e: "e = (case hd_fault (drop_fault (drop_fault ps)) of
                    Some m' \<Rightarrow> Errorf ''rollback'' (Some (StorageError m'))
                  | None \<Rightarrow> Errorf ''update products'' None)"
      by (simp only: update_pairs_update_fails [OF update_fails] prod.inject sum.inject)
    show ?thesis
    proof (cases "hd_fault (drop_fault (drop_fault ps))")
      case None
      with e have ?U by (simp only: option.case)
      then have "?G \<or> ?U" by (rule disjI2)
      then show ?thesis by (rule disjI2)
    next
      case (Some m')
      with e have "e = Errorf ''rollback'' (Some (StorageError m'))"
        by (simp only: option.case)
      then have ?R by (rule exI)
      then show ?thesis by (rule disjI1)
    qed
  next
    case (continues r)
    with Cons.prems u
    have "update_pairs updates (tx\<lparr>pending := map (set_quantity quantity pid) (pending tx)\<rparr>)
            (drop_fault (drop_fault ps)) = (Inl e, ps')"
      by (simp only: update_pairs_continues [OF continues])
    then show ?thesis
      by (rule Cons.IH)
  qed
qed

lemma fold_set_quantity:
  "distinct (map fst updates) \<Longrightarrow>
   fold (\<lambda>(pid, q). map (set_quantity q pid)) updates rows =
     map (\<lambda>r. case map_of updates (ID r) of None \<Rightarrow> r | Some q \<Rightarrow> r\<lparr>Quantity := q\<rparr>) rows"
proof (induction updates arbitrary: rows)
  case Nil
  then show ?case by simp
next
  case (Cons u updates)
  obtain pid q where u: "u = (pid, q)" by (cases u)
  from Cons.prems u have fresh: "map_of updates pid = None"
    by (simp add: map_of_eq_None_iff)
  from Cons.prems have "distinct (map fst updates)" by simp
  with Cons.IH fresh u show ?case
    by (auto simp: set_quantity_def)
qed

lemma find_row_map:
  "(\<And>r. ID (f r) = ID r) \<Longrightarrow> find_row pid (map f rows) = map_option f (find_row pid rows)"
  by (induction rows) (simp_all add: find_row_def)

lemma find_row_ID: "find_row pid rows = Some r \<Longrightarrow> ID r = pid"
  by (induction rows) (auto simp: find_row_def split: if_splits)

lemma BatchUpdateInventory_success:
  assumes "BatchUpdateInventory updates ps = (None, ps')"
  obtains tx' ps2 where "hd_fault ps = None"
    and "update_pairs updates \<lparr>pending = table ps\<rparr> (drop_fault ps) = (Inr tx', ps2)"
    and "table ps' = pending tx'"
  using assms
  by (auto simp: BatchUpdateInventory_def Begin_def Commit_def next_fault_eq
      split: option.splits prod.splits sum.splits)

lemma BatchUpdateInventory_success_table:
  assumes "BatchUpdateInventory updates ps = (None, ps')"
    and "distinct (map fst updates)"
  shows "table ps' =
           map (\<lambda>r. case map_of updates (ID r) of None \<Rightarrow> r | Some q \<Rightarrow> r\<lparr>Quantity := q\<rparr>)
             (table ps)"
    and "list_all (\<lambda>(pid, q). find_row pid (table ps) \<noteq> None) updates"
proof -
  from assms(1) obtain tx' ps2
    where run: "update_pairs updates \<lparr>pending = table ps\<rparr> (drop_fault ps) = (Inr tx', ps2)"
      and tab: "table ps' = pending tx'"
    by (rule BatchUpdateInventory_success)
  from update_pairs_success [OF run]
  have p: "pending tx' = fold (\<lambda>(pid, q). map (set_quantity q pid)) updates (table ps)"
    and l: "list_all (\<lambda>(pid, q). find_row pid (table ps) \<noteq> None) updates"
    by simp_all
  from p tab assms(2) show "table ps' =
      map (\<lambda>r. case map_of updates (ID r) of None \<Rightarrow> r | Some q \<Rightarrow> r\<lparr>Quantity := q\<rparr>)
        (table ps)"
    by (simp add: fold_set_quantity)
  from l show "list_all (\<lambda>(pid, q). find_row pid (table ps) \<noteq> None) updates" .
qed

text \<open>Every error the batch update can return; none of them wraps a per-pair fault.\<close>

lemma BatchUpdateInventory_error_shape:
  assumes "BatchUpdateInventory updates ps = (Some e, ps')"
  shows "(\<exists>m. e = Errorf ''begin tx'' (Some (StorageError m))) \<or>
         (\<exists>m. e = Errorf ''commit'' (Some (StorageError m))) \<or>
         (\<exists>m. e = Errorf ''rollback'' (Some (StorageError m))) \<or>
         e = Errorf ''get products'' None \<or> e = Errorf ''update products'' None"
proof (cases "hd_fault ps")
  case (Some m)
  with assms have "e = Errorf ''begin tx'' (Some (StorageError m))"
    by (simp add: BatchUpdateInventory_def Begin_def next_fault_eq)
  then have "\<exists>m. e = Errorf ''begin tx'' (Some (StorageError m))"
    by (rule exI)
  then show ?thesis
    by (rule disjI1)
next
  case None
  obtain r ps2 where run: "update_pairs updates \<lparr>pending = table ps\<rparr> (drop_fault ps) = (r, ps2)"
    by (cases "update_pairs updates \<lparr>pending = table ps\<rparr> (drop_fault ps)")
  show ?thesis
  proof (cases r)
    case (Inl e')
    with assms None run have "e' = e"
      by (simp add: BatchUpdateInventory_def Begin_def next_fault_eq)
    with run Inl have "update_pairs updates \<lparr>pending = table ps\<rparr> (drop_fault ps) = (Inl e, ps2)"
      by simp
    then have "(\<exists>m. e = Errorf ''rollback'' (Some (StorageError m))) \<or>
        e = Errorf ''get products'' None \<or> e = Errorf ''update products'' None"
      by (rule update_pairs_error_shape)
    then have "(\<exists>m. e = Errorf ''commit'' (Some (StorageError m))) \<or>
        (\<exists>m. e = Errorf ''rollback'' (Some (StorageError m))) \<or>
        e = Errorf ''get products'' None \<or> e = Errorf ''update products'' None"
      by (rule disjI2)
    then show ?thesis
      by (rule disjI2)
  next
    case (Inr tx1)
    with assms None run have "\<exists>m. e = Errorf ''commit'' (Some (StorageError m))"
      by (cases "hd_fault ps2")
         (auto simp: BatchUpdateInventory_def Begin_def Commit_def next_fault_eq)
    then have "(\<exists>m. e = Errorf ''commit'' (Some (StorageError m))) \<or>
        (\<exists>m. e = Errorf ''rollback'' (Some (StorageError m))) \<or>
        e = Errorf ''get products'' None \<or> e = Errorf ''update products'' None"
      by (rule disjI1)
    then show ?thesis
      by (rule disjI2)
  qed
qed

lemma fault_at_0: "fault_at db 0 = hd_fault db"
  by (simp add: fault_at_def)

lemma fault_at_drop_fault: "fault_at (drop_fault db) i = fault_at db (Suc i)"
  by (simp add: fault_at_def funpow_swap1)

lemma fault_at_shift: "Suc i = n \<Longrightarrow> fault_at (drop_fault db) i = fault_at db n"
  by (auto simp: fault_at_drop_fault)

lemma drop_fault_funpow_table [simp]: "table ((drop_fault ^^ i) db) = table db"
  by (induction i) simp_all

lemma drop_fault_funpow_shift: "(drop_fault ^^ i) (drop_fault db) = (drop_fault ^^ Suc i) db"
  by (simp add: funpow_swap1)

text \<open>
  The two \<^verbatim>\<open>return\<close>s that follow \<^verbatim>\<open>err = tx.Rollback()\<close>, by what the rollback meets.
\<close>

lemma return_after_Rollback:
  "(case Rollback tx db of
      (err, db') \<Rightarrow>
        (Some (if err \<noteq> None then Errorf ''rollback'' err else Errorf ctx err), db')) =
   (Some (case hd_fault db of
            Some m \<Rightarrow> Errorf ''rollback'' (Some (StorageError m))
          | None \<Rightarrow> Errorf ctx None),
    drop_fault db)"
  by (cases "hd_fault db") (simp_all add: Rollback_eq)

text \<open>A pair that fails ends the loop with an early return, whatever came before it.\<close>

lemma update_pairs_pair_fails:
  assumes "k < length updates"
    and "fault_at ps (2 * k) \<noteq> None \<or> find_row (fst (updates ! k)) (table ps) = None \<or>
         fault_at ps (2 * k + 1) \<noteq> None"
  shows "\<exists>e ps'. update_pairs updates tx ps = (Inl e, ps')"
  using assms
proof (induction updates arbitrary: k tx ps)
  case Nil
  then show ?case by simp
next
  case (Cons u updates)
  obtain pid quantity where u: "u = (pid, quantity)"
    by (cases u)
  show ?case
  proof (cases rule: update_pairs_cases [where ps = ps and pid = pid])
    case check_fails
    then show ?thesis
      unfolding u by (simp only: update_pairs_check_fails) blast
  next
    case (update_fails r m)
    then show ?thesis
      unfolding u by (simp only: update_pairs_update_fails) blast
  next
    case (continues r)
    let ?ps = "drop_fault (drop_fault ps)"
    let ?tx = "tx\<lparr>pending := map (set_quantity quantity pid) (pending tx)\<rparr>"
    from continues have "fault_at ps 0 = None" "fault_at ps 1 = None"
      by (simp_all add: fault_at_def)
    with continues Cons.prems(2) u have "k \<noteq> 0"
      by (cases k) auto
    then obtain k' where k: "k = Suc k'"
      by (cases k) auto
    with Cons.prems(1) have less: "k' < length updates"
      by simp
    have shift: "fault_at ?ps i = fault_at ps (Suc (Suc i))" for i
      by (simp add: fault_at_drop_fault)
    from Cons.prems(2) k
    have "fault_at ?ps (2 * k') \<noteq> None \<or> find_row (fst (updates ! k')) (table ?ps) = None \<or>
          fault_at ?ps (2 * k' + 1) \<noteq> None"
      by (simp add: shift)
    from Cons.IH [OF less this]
    obtain e ps' where "update_pairs updates ?tx ?ps = (Inl e, ps')"
      by blast
    with continues u show ?thesis
      by (simp only: update_pairs_continues) blast
  qed
qed

text \<open>
  The first pair that fails: the loop returns right after the rollback that follows the
  failing driver call.
\<close>

lemma update_pairs_first_failure:
  assumes "k < length updates"
    and "\<forall>j<k. fault_at ps (2 * j) = None \<and> find_row (fst (updates ! j)) (table ps) \<noteq> None \<and>
           fault_at ps (2 * j + 1) = None"
    and "fault_at ps (2 * k) \<noteq> None \<or> find_row (fst (updates ! k)) (table ps) = None \<or>
         fault_at ps (2 * k + 1) \<noteq> None"
  shows "update_pairs updates tx ps =
           (if fault_at ps (2 * k) \<noteq> None \<or> find_row (fst (updates ! k)) (table ps) = None
            then (Inl (case fault_at ps (2 * k + 1) of
                         Some m \<Rightarrow> Errorf ''rollback'' (Some (StorageError m))
                       | None \<Rightarrow> Errorf ''get products'' None),
                  (drop_fault ^^ (2 * k + 2)) ps)
            else (Inl (case fault_at ps (2 * k + 2) of
                         Some m \<Rightarrow> Errorf ''rollback'' (Some (StorageError m))
                       | None \<Rightarrow> Errorf ''update products'' None),
                  (drop_fault ^^ (2 * k + 3)) ps))"
  using assms
proof (induction updates arbitrary: k tx ps)
  case Nil
  then show ?case by simp
next
  case (Cons u updates)
  obtain pid quantity where u: "u = (pid, quantity)"
    by (cases u)
  show ?case
  proof (cases k)
    case 0
    show ?thesis
    proof (cases rule: update_pairs_cases [where ps = ps and pid = pid])
      case check_fails
      then have "update_pairs ((pid, quantity) # updates) tx ps =
          (Inl (case hd_fault (drop_fault ps) of
                  Some m \<Rightarrow> Errorf ''rollback'' (Some (StorageError m))
                | None \<Rightarrow> Errorf ''get products'' None),
           drop_fault (drop_fault ps))"
        by (rule update_pairs_check_fails)
      with check_fails show ?thesis
        by (auto simp: 0 u fault_at_def eval_nat_numeral simp del: update_pairs.simps)
    next
      case (update_fails r m)
      then have "update_pairs ((pid, quantity) # updates) tx ps =
          (Inl (case hd_fault (drop_fault (drop_fault ps)) of
                  Some m' \<Rightarrow> Errorf ''rollback'' (Some (StorageError m'))
                | None \<Rightarrow> Errorf ''update products'' None),
           drop_fault (drop_fault (drop_fault ps)))"
        by (rule update_pairs_update_fails)
      with update_fails show ?thesis
        by (simp add: 0 u fault_at_def eval_nat_numeral del: update_pairs.simps)
    next
      case (continues r)
      with Cons.prems(3) show ?thesis
        by (simp add: 0 u fault_at_def)
    qed
  next
    case (Suc k')
    let ?ps = "drop_fault (drop_fault ps)"
    let ?tx = "tx\<lparr>pending := map (set_quantity quantity pid) (pending tx)\<rparr>"
    from Cons.prems(2) Suc
    have "fault_at ps (2 * 0) = None \<and> find_row (fst ((u # updates) ! 0)) (table ps) \<noteq> None \<and>
          fault_at ps (2 * 0 + 1) = None"
      by blast
    then have h: "hd_fault ps = None" "hd_fault (drop_fault ps) = None"
      and "find_row pid (table ps) \<noteq> None"
      by (simp_all add: u fault_at_def)
    then obtain r where r: "find_row pid (table ps) = Some r"
      by blast
    have step: "update_pairs ((pid, quantity) # updates) tx ps = update_pairs updates ?tx ?ps"
      by (rule update_pairs_continues [OF h(1) r h(2)])
    have shift: "fault_at ?ps i = fault_at ps (Suc (Suc i))" for i
      by (simp add: fault_at_drop_fault)
    have dshift: "(drop_fault ^^ i) ?ps = (drop_fault ^^ Suc (Suc i)) ps" for i
      by (simp add: funpow_swap1)
    from Cons.prems(1) Suc have less: "k' < length updates"
      by simp
    have before: "\<forall>j<k'. fault_at ?ps (2 * j) = None \<and>
        find_row (fst (updates ! j)) (table ?ps) \<noteq> None \<and> fault_at ?ps (2 * j + 1) = None"
    proof (intro allI impI)
      fix j
      assume "j < k'"
      then have "Suc j < k"
        by (simp add: Suc)
      with Cons.prems(2)
      have "fault_at ps (2 * Suc j) = None \<and>
            find_row (fst ((u # updates) ! Suc j)) (table ps) \<noteq> None \<and>
            fault_at ps (2 * Suc j + 1) = None"
        by blast
      then show "fault_at ?ps (2 * j) = None \<and>
          find_row (fst (updates ! j)) (table ?ps) \<noteq> None \<and> fault_at ?ps (2 * j + 1) = None"
        by (simp add: shift)
    qed
    from Cons.prems(3) Suc
    have fails: "fault_at ?ps (2 * k') \<noteq> None \<or> find_row (fst (updates ! k')) (table ?ps) = None \<or>
        fault_at ?ps (2 * k' + 1) \<noteq> None"
      by (simp add: shift)
    from Cons.IH [OF less before fails, of ?tx] step u Suc show ?thesis
      by (simp add: shift dshift del: update_pairs.simps)
  qed
qed

text \<open>
  C1. \<open>BatchUpdateInventory\<close> is all-or-nothing. Let the \<open>k\<close>-th visited pair of the
  mapping fail its existence check (the query meets a storage fault or finds no row) or
  its update (the \<^verbatim>\<open>UPDATE\<close> meets a storage fault), in whatever order the pairs are
  visited. Then the call returns an error, and the stored table after the call is the
  table before it: every product has the quantity it had. When moreover the transaction
  began and the pairs before the \<open>k\<close>-th went through, the call ends with
  \<^verbatim>\<open>tx.Rollback()\<close> as the very next driver call after the failing one, and returns
  what the source returns after it: the rollback's own error under \<^verbatim>\<open>rollback\<close>, or the
  stage of the failure.
\<close>

theorem BatchUpdateInventory_all_or_nothing:
  assumes "k < length updates" and "\<not> pair_passes ps updates k"
  shows "fst (BatchUpdateInventory updates ps) \<noteq> None \<and>
         table (snd (BatchUpdateInventory updates ps)) = table ps \<and>
         (hd_fault ps = None \<and> (\<forall>j<k. pair_passes ps updates j) \<longrightarrow>
            BatchUpdateInventory updates ps =
              (if fault_at ps (2 * k + 1) \<noteq> None \<or>
                  find_row (fst (updates ! k)) (table ps) = None
               then (case Rollback tx ((drop_fault ^^ (2 * k + 2)) ps) of
                       (err, ps') \<Rightarrow>
                         (Some (if err \<noteq> None then Errorf ''rollback'' err
                                else Errorf ''get products'' err), ps'))
               else (case Rollback tx ((drop_fault ^^ (2 * k + 3)) ps) of
                       (err, ps') \<Rightarrow>
                         (Some (if err \<noteq> None then Errorf ''rollback'' err
                                else Errorf ''update products'' err), ps'))))"
proof (cases "hd_fault ps")
  case (Some m)
  then have "BatchUpdateInventory updates ps =
      (Some (Errorf ''begin tx'' (Some (StorageError m))), drop_fault ps)"
    by (simp add: BatchUpdateInventory_def Begin_def next_fault_eq)
  with Some show ?thesis
    by simp
next
  case None
  let ?ps = "drop_fault ps"
  let ?tx = "\<lparr>pending = table ps\<rparr>"
  have shift: "fault_at ?ps i = fault_at ps (Suc i)" for i
    by (rule fault_at_drop_fault)
  have dshift: "(drop_fault ^^ i) ?ps = (drop_fault ^^ Suc i) ps" for i
    by (rule drop_fault_funpow_shift)
  from assms(2)
  have fails: "fault_at ?ps (2 * k) \<noteq> None \<or> find_row (fst (updates ! k)) (table ?ps) = None \<or>
      fault_at ?ps (2 * k + 1) \<noteq> None"
    by (auto simp: pair_passes_def shift)
  from update_pairs_pair_fails [OF assms(1) fails]
  obtain e ps2 where run: "update_pairs updates ?tx ?ps = (Inl e, ps2)"
    by blast
  with None have result: "BatchUpdateInventory updates ps = (Some e, ps2)"
    by (simp add: BatchUpdateInventory_def Begin_def next_fault_eq)
  then have tab: "table ps2 = table ps"
    by (rule BatchUpdateInventory_error_table)
  define c where
    "c \<longleftrightarrow> fault_at ps (2 * k + 1) \<noteq> None \<or> find_row (fst (updates ! k)) (table ps) = None"
  define X where "X = (drop_fault ^^ (2 * k + 2)) ps"
  define Y where "Y = (drop_fault ^^ (2 * k + 3)) ps"
  define a where
    "a = (case hd_fault X of
            Some m \<Rightarrow> Errorf ''rollback'' (Some (StorageError m))
          | None \<Rightarrow> Errorf ''get products'' None)"
  define b where
    "b = (case hd_fault Y of
            Some m \<Rightarrow> Errorf ''rollback'' (Some (StorageError m))
          | None \<Rightarrow> Errorf ''update products'' None)"
  have e1: "fault_at ?ps (2 * k) = fault_at ps (2 * k + 1)"
    and e2: "fault_at ?ps (2 * k + 1) = hd_fault X"
    and e3: "fault_at ?ps (2 * k + 2) = hd_fault Y"
    and e4: "(drop_fault ^^ (2 * k + 2)) ?ps = drop_fault X"
    and e5: "(drop_fault ^^ (2 * k + 3)) ?ps = drop_fault Y"
  proof -
    show "fault_at ?ps (2 * k) = fault_at ps (2 * k + 1)"
      by (rule fault_at_shift) simp
    have "fault_at ?ps (2 * k + 1) = fault_at ps (2 * k + 2)"
      by (rule fault_at_shift) simp
    then show "fault_at ?ps (2 * k + 1) = hd_fault X"
      by (simp only: X_def fault_at_def)
    have "fault_at ?ps (2 * k + 2) = fault_at ps (2 * k + 3)"
      by (rule fault_at_shift) simp
    then show "fault_at ?ps (2 * k + 2) = hd_fault Y"
      by (simp only: Y_def fault_at_def)
    show "(drop_fault ^^ (2 * k + 2)) ?ps = drop_fault X"
      by (simp only: X_def funpow_swap1)
    show "(drop_fault ^^ (2 * k + 3)) ?ps = drop_fault Y"
      by (simp only: Y_def funpow_swap1)
  qed
  have e6: "table ?ps = table ps"
    by simp
  have exact: "BatchUpdateInventory updates ps =
      (if c then (Some a, drop_fault X) else (Some b, drop_fault Y))"
    if before: "\<forall>j<k. pair_passes ps updates j"
  proof -
    from before
    have "\<forall>j<k. fault_at ?ps (2 * j) = None \<and>
        find_row (fst (updates ! j)) (table ?ps) \<noteq> None \<and> fault_at ?ps (2 * j + 1) = None"
      by (simp add: pair_passes_def shift)
    from update_pairs_first_failure [OF assms(1) this fails, of ?tx]
    have up: "update_pairs updates ?tx ?ps =
        (if c then (Inl a, drop_fault X) else (Inl b, drop_fault Y))"
      by (simp only: e1 e2 e3 e4 e5 e6 c_def a_def b_def)
    show ?thesis
    proof (cases c)
      case True
      with up None show ?thesis
        by (simp add: BatchUpdateInventory_def Begin_def next_fault_eq)
    next
      case False
      with up None show ?thesis
        by (simp add: BatchUpdateInventory_def Begin_def next_fault_eq)
    qed
  qed
  have goal3: "hd_fault ps = None \<and> (\<forall>j<k. pair_passes ps updates j) \<longrightarrow>
      BatchUpdateInventory updates ps =
        (if fault_at ps (2 * k + 1) \<noteq> None \<or>
            find_row (fst (updates ! k)) (table ps) = None
         then (case Rollback tx ((drop_fault ^^ (2 * k + 2)) ps) of
                 (err, ps') \<Rightarrow>
                   (Some (if err \<noteq> None then Errorf ''rollback'' err
                          else Errorf ''get products'' err), ps'))
         else (case Rollback tx ((drop_fault ^^ (2 * k + 3)) ps) of
                 (err, ps') \<Rightarrow>
                   (Some (if err \<noteq> None then Errorf ''rollback'' err
                          else Errorf ''update products'' err), ps')))"
  proof
    assume "hd_fault ps = None \<and> (\<forall>j<k. pair_passes ps updates j)"
    then have "\<forall>j<k. pair_passes ps updates j" ..
    then have "BatchUpdateInventory updates ps =
        (if c then (Some a, drop_fault X) else (Some b, drop_fault Y))"
      by (rule exact)
    then show "BatchUpdateInventory updates ps =
        (if fault_at ps (2 * k + 1) \<noteq> None \<or>
            find_row (fst (updates ! k)) (table ps) = None
         then (case Rollback tx ((drop_fault ^^ (2 * k + 2)) ps) of
                 (err, ps') \<Rightarrow>
                   (Some (if err \<noteq> None then Errorf ''rollback'' err
                          else Errorf ''get products'' err), ps'))
         else (case Rollback tx ((drop_fault ^^ (2 * k + 3)) ps) of
                 (err, ps') \<Rightarrow>
                   (Some (if err \<noteq> None then Errorf ''rollback'' err
                          else Errorf ''update products'' err), ps')))"
      by (simp only: return_after_Rollback c_def a_def b_def X_def Y_def)
  qed
  from result have "fst (BatchUpdateInventory updates ps) \<noteq> None"
    by simp
  moreover from result tab have "table (snd (BatchUpdateInventory updates ps)) = table ps"
    by simp
  ultimately show ?thesis
    using goal3 by (intro conjI)
qed

theorem BatchUpdateInventory_all_or_nothing_witness:
  "(0::nat) < length [(1::int, 3::int), (2, 0)] \<and>
   \<not> pair_passes (store [Widget, Gadget] [None, None, Some ''disk I/O error''])
        [(1, 3), (2, 0)] 0 \<and>
   BatchUpdateInventory [(1, 3), (2, 0)]
       (store [Widget, Gadget] [None, None, Some ''disk I/O error'']) =
     (Some (Errorf ''update products'' None), store [Widget, Gadget] []) \<and>
   (1::nat) < length [(2::int, 0::int), (1, 99)] \<and>
   pair_passes (store [Gadget] []) [(2, 0), (1, 99)] 0 \<and>
   \<not> pair_passes (store [Gadget] []) [(2, 0), (1, 99)] 1 \<and>
   BatchUpdateInventory [(2, 0), (1, 99)] (store [Gadget] []) =
     (Some (Errorf ''get products'' None), store [Gadget] [])"
proof -
  let ?S = "store [Widget, Gadget] [None, None, Some ''disk I/O error'']"
  let ?U = "[(1::int, 3::int), (2, 0)]"
  let ?S' = "store [Gadget] []"
  let ?U' = "[(2::int, 0::int), (1, 99)]"
  have k: "(0::nat) < length ?U" and k': "(1::nat) < length ?U'"
    by simp_all
  have f: "\<not> pair_passes ?S ?U 0"
    by (simp add: pair_passes_def fault_at_def hd_fault_def drop_fault_def store_def
        eval_nat_numeral)
  have h: "hd_fault ?S = None \<and> (\<forall>j<0. pair_passes ?S ?U j)"
    by (simp add: hd_fault_def store_def)
  have p': "pair_passes ?S' ?U' 0"
    by (simp add: pair_passes_def fault_at_def hd_fault_def drop_fault_def store_def
        find_row_def Gadget_def eval_nat_numeral)
  have f': "\<not> pair_passes ?S' ?U' 1"
    by (simp add: pair_passes_def fault_at_def hd_fault_def drop_fault_def store_def
        find_row_def Gadget_def eval_nat_numeral)
  from p' have h': "hd_fault ?S' = None \<and> (\<forall>j<1. pair_passes ?S' ?U' j)"
    by (simp add: hd_fault_def store_def)
  note eq = BatchUpdateInventory_all_or_nothing
    [OF k f, where tx = "\<lparr>pending = []\<rparr>", THEN conjunct2, THEN conjunct2, THEN mp, OF h]
  have r: "BatchUpdateInventory ?U ?S =
      (Some (Errorf ''update products'' None), store [Widget, Gadget] [])"
    unfolding eq
    by (simp add: Rollback_def next_fault_def fault_at_def hd_fault_def drop_fault_def
        store_def find_row_def Widget_def Gadget_def eval_nat_numeral)
  note eq' = BatchUpdateInventory_all_or_nothing
    [OF k' f', where tx = "\<lparr>pending = []\<rparr>", THEN conjunct2, THEN conjunct2, THEN mp, OF h']
  have r': "BatchUpdateInventory ?U' ?S' =
      (Some (Errorf ''get products'' None), store [Gadget] [])"
    unfolding eq'
    by (simp add: Rollback_def next_fault_def fault_at_def hd_fault_def drop_fault_def
        store_def find_row_def Gadget_def eval_nat_numeral)
  from k f r k' p' f' r' show ?thesis
    by (simp only: simp_thms)
qed

text \<open>
  C3. After a successful rollback the error of \<open>BatchUpdateInventory\<close> does not carry
  the fault that caused it. In the store holding only Gadget (ID 2), with no storage fault, the batch \<open>{1: 99}\<close> fails its existence check and the
  rollback succeeds. The error returned is \<^verbatim>\<open>get products: %!w(<nil>)\<close>: it wraps nothing,
  and \<^verbatim>\<open>errors.Is\<close> does not find \<^verbatim>\<open>sql.ErrNoRows\<close> in it. Likewise, when the update of
  ID 2 fails with a disk error and the rollback succeeds, the error returned is
  \<^verbatim>\<open>update products: %!w(<nil>)\<close> and the disk error is lost.
\<close>

theorem BatchUpdateInventory_rollback_discards_cause:
  "fst (BatchUpdateInventory [(1, 99)] (store [Gadget] [])) =
     Some (Errorf ''get products'' None) \<and>
   Unwrap (Errorf ''get products'' None) = None \<and>
   \<not> Is (Errorf ''get products'' None) ErrNoRows \<and>
   Error (Errorf ''get products'' None) = ''get products: %!w(<nil>)'' \<and>
   fst (BatchUpdateInventory [(2, 0)]
          (store [Gadget] [None, None, Some ''disk I/O error'', None])) =
     Some (Errorf ''update products'' None) \<and>
   \<not> Is (Errorf ''update products'' None) (StorageError ''disk I/O error'')"
  by (simp add: BatchUpdateInventory_def Begin_def GetProduct_def QueryRow_Scan_def
      Rollback_def tx_Exec_update_def next_fault_def find_row_def store_def Gadget_def)

text \<open>
  C7. Let the keys of the mapping be pairwise different (they are the keys of a Go
  map), let \<open>BatchUpdateInventory\<close> return nil, and let \<open>(pid, quantity)\<close> be one of its
  pairs. Then \<open>pid\<close> had a row before the call, and \<open>GetProduct pid\<close> on the store after
  the call, when its query meets no storage fault, returns a product with
  \<open>Quantity = quantity\<close> whose \<open>ID\<close>, \<open>Name\<close>, \<open>Price\<close> and \<open>Category\<close> are those of the row
  before the call.
\<close>

theorem BatchUpdateInventory_commit_success:
  assumes "distinct (map fst updates)"
    and "BatchUpdateInventory updates ps = (None, ps')"
    and "(pid, quantity) \<in> set updates"
    and "hd_fault ps' = None"
  shows "\<exists>p0 p. find_row pid (table ps) = Some p0 \<and>
           fst (GetProduct pid ps') = Inr p \<and>
           Quantity p = quantity \<and> ID p = ID p0 \<and> Name p = Name p0 \<and>
           Price p = Price p0 \<and> Category p = Category p0"
proof -
  let ?f = "\<lambda>r. case map_of updates (ID r) of None \<Rightarrow> r | Some q \<Rightarrow> r\<lparr>Quantity := q\<rparr>"
  from assms(2,1) have tab: "table ps' = map ?f (table ps)"
    by (rule BatchUpdateInventory_success_table(1))
  from assms(2,1) have "list_all (\<lambda>(pid, q). find_row pid (table ps) \<noteq> None) updates"
    by (rule BatchUpdateInventory_success_table(2))
  with assms(3) obtain p0 where p0: "find_row pid (table ps) = Some p0"
    by (auto simp: list_all_iff)
  then have id0: "ID p0 = pid"
    by (rule find_row_ID)
  from assms(1,3) have q: "map_of updates pid = Some quantity"
    by simp
  have "ID (?f r) = ID r" for r
    by (simp split: option.splits)
  then have "find_row pid (map ?f (table ps)) = map_option ?f (find_row pid (table ps))"
    by (rule find_row_map)
  with p0 id0 q tab have "find_row pid (table ps') = Some (p0\<lparr>Quantity := quantity\<rparr>)"
    by simp
  with assms(4) have "fst (GetProduct pid ps') = Inr (p0\<lparr>Quantity := quantity\<rparr>)"
    by (simp add: GetProduct_eq)
  with p0 show ?thesis
    by simp
qed

theorem BatchUpdateInventory_commit_success_witness:
  "distinct (map fst [(1::int, 3::int), (2, 0)]) \<and>
   BatchUpdateInventory [(1, 3), (2, 0)] (store [Widget, Gadget] []) =
     (None, store [Widget\<lparr>Quantity := 3\<rparr>, Gadget\<lparr>Quantity := 0\<rparr>] []) \<and>
   (2::int, 0::int) \<in> set [(1, 3), (2, 0)] \<and>
   hd_fault (store [Widget\<lparr>Quantity := 3\<rparr>, Gadget\<lparr>Quantity := 0\<rparr>] []) = None \<and>
   (\<exists>p0 p. find_row 2 (table (store [Widget, Gadget] [])) = Some p0 \<and>
      fst (GetProduct 2 (store [Widget\<lparr>Quantity := 3\<rparr>, Gadget\<lparr>Quantity := 0\<rparr>] [])) = Inr p \<and>
      Quantity p = 0 \<and> ID p = ID p0 \<and> Name p = Name p0 \<and>
      Price p = Price p0 \<and> Category p = Category p0)"
proof -
  have d: "distinct (map fst [(1::int, 3::int), (2, 0)])"
    by simp
  have run: "BatchUpdateInventory [(1, 3), (2, 0)] (store [Widget, Gadget] []) =
      (None, store [Widget\<lparr>Quantity := 3\<rparr>, Gadget\<lparr>Quantity := 0\<rparr>] [])"
    by (simp add: BatchUpdateInventory_def Begin_def Commit_def GetProduct_def
        QueryRow_Scan_def tx_Exec_update_def next_fault_def find_row_def set_quantity_def
        store_def Widget_def Gadget_def)
  have m: "(2, 0) \<in> set [(1::int, 3::int), (2, 0)]"
    by simp
  have h: "hd_fault (store [Widget\<lparr>Quantity := 3\<rparr>, Gadget\<lparr>Quantity := 0\<rparr>] []) = None"
    by (simp add: hd_fault_def store_def)
  from BatchUpdateInventory_commit_success [OF d run m h] d run m h show ?thesis
    by blast
qed

text \<open>
  C9. With the empty mapping, when the storage layer lets \<^verbatim>\<open>Begin\<close> and \<^verbatim>\<open>Commit\<close>
  through, \<open>BatchUpdateInventory\<close> returns nil after exactly these two driver calls, and
  the stored table is the one before the call.
\<close>

theorem BatchUpdateInventory_empty_mapping:
  "hd_fault ps = None \<Longrightarrow> hd_fault (drop_fault ps) = None \<Longrightarrow>
   BatchUpdateInventory [] ps = (None, drop_fault (drop_fault ps)) \<and>
   table (snd (BatchUpdateInventory [] ps)) = table ps"
  by (simp add: BatchUpdateInventory_def Begin_def Commit_def next_fault_eq drop_fault_def)

theorem BatchUpdateInventory_empty_mapping_witness:
  "hd_fault (store [Widget, Gadget] [None, None]) = None \<and>
   hd_fault (drop_fault (store [Widget, Gadget] [None, None])) = None \<and>
   BatchUpdateInventory [] (store [Widget, Gadget] [None, None]) =
     (None, store [Widget, Gadget] []) \<and>
   table (snd (BatchUpdateInventory [] (store [Widget, Gadget] [None, None]))) =
     [Widget, Gadget]"
proof -
  have h1: "hd_fault (store [Widget, Gadget] [None, None]) = None"
    by (simp add: hd_fault_def store_def)
  have h2: "hd_fault (drop_fault (store [Widget, Gadget] [None, None])) = None"
    by (simp add: hd_fault_def drop_fault_def store_def)
  from BatchUpdateInventory_empty_mapping [OF h1 h2] h1 h2 show ?thesis
    by (simp add: drop_fault_def store_def)
qed

section \<open>Properties of the single-row operations\<close>

lemma Exec_update_eq:
  "Exec_update name price quantity category pid db =
     (case hd_fault db of
        Some m \<Rightarrow> (Some (StorageError m), drop_fault db)
      | None \<Rightarrow>
          (None, (drop_fault db)
             \<lparr>table := map (set_fields name price quantity category pid) (table db)\<rparr>))"
  by (simp add: Exec_update_def next_fault_eq split: option.splits)

lemma Exec_delete_eq:
  "Exec_delete pid db =
     (case hd_fault db of
        Some m \<Rightarrow> (Some (StorageError m), drop_fault db)
      | None \<Rightarrow> (None, (drop_fault db)\<lparr>table := filter (\<lambda>r. ID r \<noteq> pid) (table db)\<rparr>))"
  by (simp add: Exec_delete_def next_fault_eq split: option.splits)

lemma GetProduct_missing:
  "find_row pid (table ps) = None \<Longrightarrow>
   GetProduct pid ps =
     (Inl (Errorf ''get product''
        (Some (case hd_fault ps of Some m \<Rightarrow> StorageError m | None \<Rightarrow> ErrNoRows))),
      drop_fault ps)"
  by (simp add: GetProduct_eq split: option.splits)

lemma GetProduct_found:
  "hd_fault ps = None \<Longrightarrow> find_row pid (table ps) = Some r \<Longrightarrow>
   GetProduct pid ps = (Inr r, drop_fault ps)"
  by (simp add: GetProduct_eq)

lemma UpdateProduct_success:
  assumes "UpdateProduct product ps = (None, ps')"
  shows "table ps' =
           map (set_fields (Name product) (Price product) (Quantity product)
                  (Category product) (ID product)) (table ps)"
    and "find_row (ID product) (table ps) \<noteq> None"
  using assms
  by (auto simp: UpdateProduct_def GetProduct_eq Exec_update_eq
      split: option.splits prod.splits sum.splits)

lemma DeleteProduct_success:
  assumes "DeleteProduct pid ps = (None, ps')"
  shows "table ps' = filter (\<lambda>r. ID r \<noteq> pid) (table ps)"
    and "find_row pid (table ps) \<noteq> None"
  using assms
  by (auto simp: DeleteProduct_def GetProduct_eq Exec_delete_eq
      split: option.splits prod.splits sum.splits)

lemma ID_set_fields [simp]: "ID (set_fields name price quantity category pid r) = ID r"
  by (simp add: set_fields_def)

lemma fold_max_ge: "(s::int) \<le> fold max xs s"
proof (induction xs arbitrary: s)
  case Nil
  then show ?case by simp
next
  case (Cons y ys)
  have "s \<le> max y s"
    by simp
  also have "max y s \<le> fold max ys (max y s)"
    by (rule Cons.IH)
  finally show ?case
    by simp
qed

lemma fold_max_mem: "(x::int) \<in> set xs \<Longrightarrow> x \<le> fold max xs s"
proof (induction xs arbitrary: s)
  case Nil
  then show ?case by simp
next
  case (Cons y ys)
  show ?case
  proof (cases "x = y")
    case True
    have "max y s \<le> fold max ys (max y s)"
      by (rule fold_max_ge)
    with True show ?thesis
      by simp
  next
    case False
    with Cons.prems have "x \<in> set ys"
      by simp
    then show ?thesis
      by (simp add: Cons.IH)
  qed
qed

lemma largest_id_bound: "r \<in> set (table db) \<Longrightarrow> ID r \<le> largest_id db"
  by (simp add: largest_id_def fold_max_mem)

lemma find_row_fresh: "\<forall>r \<in> set rows. ID r \<noteq> pid \<Longrightarrow> find_row pid rows = None"
  by (simp add: find_row_def find_None_iff)

lemma find_row_append:
  "find_row pid rows = None \<Longrightarrow> ID row = pid \<Longrightarrow> find_row pid (rows @ [row]) = Some row"
  by (induction rows) (simp_all add: find_row_def split: if_splits)

lemma find_row_above_largest: "largest_id db < pid \<Longrightarrow> find_row pid (table db) = None"
proof (rule find_row_fresh, rule ballI)
  fix r
  assume "largest_id db < pid" "r \<in> set (table db)"
  then show "ID r \<noteq> pid"
    using largest_id_bound [of r db] by simp
qed

lemma largest_id_drop_fault [simp]: "largest_id (drop_fault db) = largest_id db"
  by (simp add: largest_id_def)

lemma CreateProduct_success:
  assumes "CreateProduct product ps = ((None, product'), ps')"
  shows "product' = product\<lparr>ID := largest_id ps + 1\<rparr>"
    and "table ps' =
           table ps @ [\<lparr>ID = largest_id ps + 1, Name = Name product, Price = Price product,
                        Quantity = Quantity product, Category = Category product\<rparr>]"
  using assms
  by (auto simp: CreateProduct_def Exec_insert_def LastInsertId_def next_fault_eq Let_def
      split: option.splits prod.splits sum.splits if_splits)

lemma UpdateProduct_missing:
  "GetProduct (ID product) ps = (Inl e, ps1) \<Longrightarrow>
   UpdateProduct product ps = (Some (Errorf ''get product'' (Some e)), ps1)"
  by (simp only: UpdateProduct_def prod.case sum.case)

lemma DeleteProduct_missing:
  "GetProduct pid ps = (Inl e, ps1) \<Longrightarrow>
   DeleteProduct pid ps = (Some (Errorf ''get product'' (Some e)), ps1)"
  by (simp only: DeleteProduct_def prod.case sum.case)

text \<open>
  C5. Let no stored row have the id \<open>pid\<close>. Then \<open>GetProduct pid\<close>, \<open>UpdateProduct\<close> on a
  product with that id and \<open>DeleteProduct pid\<close> all fail, and neither \<open>UpdateProduct\<close> nor
  \<open>DeleteProduct\<close> changes the stored table. What the two return is the error \<open>g\<close> of
  \<open>GetProduct\<close> under one more layer of context (\<^verbatim>\<open>"get product: %w"\<close>), so its text is
  \<^verbatim>\<open>get product: \<close> followed by the text of \<open>g\<close>. When the lookup itself meets no storage
  fault, \<open>g\<close> is \<^verbatim>\<open>sql.ErrNoRows\<close> wrapped by \<open>GetProduct\<close>, and all three errors are the
  same not-found error to a caller: \<^verbatim>\<open>errors.Is(err, sql.ErrNoRows)\<close> holds of each.
\<close>

theorem UpdateProduct_DeleteProduct_missing_id:
  assumes "find_row pid (table ps) = None" and "ID product = pid"
  shows "\<exists>g u d. fst (GetProduct pid ps) = Inl g \<and>
           fst (UpdateProduct product ps) = Some u \<and>
           fst (DeleteProduct pid ps) = Some d \<and>
           u = Errorf ''get product'' (Some g) \<and> d = Errorf ''get product'' (Some g) \<and>
           Error u = ''get product: '' @ Error g \<and> Error d = ''get product: '' @ Error g \<and>
           table (snd (UpdateProduct product ps)) = table ps \<and>
           table (snd (DeleteProduct pid ps)) = table ps \<and>
           (hd_fault ps = None \<longrightarrow>
              g = Errorf ''get product'' (Some ErrNoRows) \<and>
              Is g ErrNoRows \<and> Is u ErrNoRows \<and> Is d ErrNoRows)"
proof -
  define g where
    "g = Errorf ''get product''
           (Some (case hd_fault ps of Some m \<Rightarrow> StorageError m | None \<Rightarrow> ErrNoRows))"
  define u where "u = Errorf ''get product'' (Some g)"
  from assms(1) have get: "GetProduct pid ps = (Inl g, drop_fault ps)"
    unfolding g_def by (rule GetProduct_missing)
  from get assms(2) have "GetProduct (ID product) ps = (Inl g, drop_fault ps)"
    by simp
  then have upd: "UpdateProduct product ps = (Some u, drop_fault ps)"
    unfolding u_def by (rule UpdateProduct_missing)
  from get have del: "DeleteProduct pid ps = (Some u, drop_fault ps)"
    unfolding u_def by (rule DeleteProduct_missing)
  have msg: "Error u = ''get product: '' @ Error g"
    unfolding u_def by (simp only: Error.simps append.simps append_Nil2)
  have nf: "hd_fault ps = None \<longrightarrow>
      g = Errorf ''get product'' (Some ErrNoRows) \<and>
      Is g ErrNoRows \<and> Is u ErrNoRows \<and> Is u ErrNoRows"
  proof
    assume "hd_fault ps = None"
    then have g: "g = Errorf ''get product'' (Some ErrNoRows)"
      unfolding g_def by (simp only: option.case)
    have i1: "Is g ErrNoRows"
      unfolding g by simp
    have i2: "Is u ErrNoRows"
      unfolding u_def g by simp
    from g i1 i2
    show "g = Errorf ''get product'' (Some ErrNoRows) \<and>
        Is g ErrNoRows \<and> Is u ErrNoRows \<and> Is u ErrNoRows"
      by (intro conjI)
  qed
  show ?thesis
  proof (rule exI [where x = g], rule exI [where x = u], rule exI [where x = u], intro conjI)
    from get show "fst (GetProduct pid ps) = Inl g"
      by simp
    from upd show "fst (UpdateProduct product ps) = Some u"
      by simp
    from del show "fst (DeleteProduct pid ps) = Some u"
      by simp
    show "u = Errorf ''get product'' (Some g)" "u = Errorf ''get product'' (Some g)"
      by (fact u_def)+
    show "Error u = ''get product: '' @ Error g" "Error u = ''get product: '' @ Error g"
      by (fact msg)+
    from upd show "table (snd (UpdateProduct product ps)) = table ps"
      by simp
    from del show "table (snd (DeleteProduct pid ps)) = table ps"
      by simp
    from nf show "hd_fault ps = None \<longrightarrow>
        g = Errorf ''get product'' (Some ErrNoRows) \<and>
        Is g ErrNoRows \<and> Is u ErrNoRows \<and> Is u ErrNoRows" .
  qed
qed

theorem UpdateProduct_DeleteProduct_missing_id_witness:
  "find_row 1 (table (store [Gadget] [])) = None \<and> ID Widget = 1 \<and>
   hd_fault (store [Gadget] []) = None \<and>
   fst (GetProduct 1 (store [Gadget] [])) = Inl (Errorf ''get product'' (Some ErrNoRows)) \<and>
   fst (UpdateProduct Widget (store [Gadget] [])) =
     Some (Errorf ''get product'' (Some (Errorf ''get product'' (Some ErrNoRows)))) \<and>
   fst (DeleteProduct 1 (store [Gadget] [])) =
     Some (Errorf ''get product'' (Some (Errorf ''get product'' (Some ErrNoRows)))) \<and>
   Is (Errorf ''get product'' (Some ErrNoRows)) ErrNoRows \<and>
   Is (Errorf ''get product'' (Some (Errorf ''get product'' (Some ErrNoRows)))) ErrNoRows \<and>
   table (snd (UpdateProduct Widget (store [Gadget] []))) = [Gadget] \<and>
   table (snd (DeleteProduct 1 (store [Gadget] []))) = [Gadget]"
proof -
  have h1: "find_row 1 (table (store [Gadget] [])) = None"
    by (simp add: find_row_def store_def Gadget_def)
  have h2: "ID Widget = 1"
    by (simp add: Widget_def)
  have h3: "hd_fault (store [Gadget] []) = None"
    by (simp add: hd_fault_def store_def)
  have t: "table (store [Gadget] []) = [Gadget]"
    by (simp add: store_def)
  from UpdateProduct_DeleteProduct_missing_id [OF h1 h2] h3
  obtain g u d where "g = Errorf ''get product'' (Some ErrNoRows)"
    and "u = Errorf ''get product'' (Some g)" and "d = Errorf ''get product'' (Some g)"
    and "fst (GetProduct 1 (store [Gadget] [])) = Inl g"
    and "fst (UpdateProduct Widget (store [Gadget] [])) = Some u"
    and "fst (DeleteProduct 1 (store [Gadget] [])) = Some d"
    and "Is g ErrNoRows" and "Is u ErrNoRows"
    and "table (snd (UpdateProduct Widget (store [Gadget] []))) = table (store [Gadget] [])"
    and "table (snd (DeleteProduct 1 (store [Gadget] []))) = table (store [Gadget] [])"
    by blast
  with h1 h2 h3 t show ?thesis
    by (simp only: simp_thms)
qed

text \<open>
  C6. After a successful \<open>CreateProduct\<close> the caller's struct is the input with only
  its \<open>ID\<close> replaced, by the identifier the table assigned: one more than the largest
  id that ever existed, an id no stored row had. \<open>GetProduct\<close> on that identifier (its
  query meeting no storage fault) returns a product with this \<open>ID\<close> and with the
  \<open>Name\<close>, \<open>Price\<close>, \<open>Quantity\<close> and \<open>Category\<close> that were passed in.
\<close>

theorem CreateProduct_round_trip:
  assumes "CreateProduct product ps = ((None, product'), ps')" and "hd_fault ps' = None"
  shows "product' = product\<lparr>ID := largest_id ps + 1\<rparr> \<and>
         find_row (ID product') (table ps) = None \<and>
         (\<exists>p. fst (GetProduct (ID product') ps') = Inr p \<and> ID p = ID product' \<and>
            Name p = Name product \<and> Price p = Price product \<and>
            Quantity p = Quantity product \<and> Category p = Category product)"
proof -
  let ?n = "largest_id ps + 1"
  let ?row = "\<lparr>ID = ?n, Name = Name product, Price = Price product,
                Quantity = Quantity product, Category = Category product\<rparr>"
  from assms(1) have p': "product' = product\<lparr>ID := ?n\<rparr>"
    by (rule CreateProduct_success(1))
  from assms(1) have tab: "table ps' = table ps @ [?row]"
    by (rule CreateProduct_success(2))
  have fresh: "find_row ?n (table ps) = None"
    by (rule find_row_above_largest) simp
  then have "find_row ?n (table ps @ [?row]) = Some ?row"
    by (rule find_row_append) simp
  with tab assms(2) have "GetProduct ?n ps' = (Inr ?row, drop_fault ps')"
    by (simp add: GetProduct_found)
  with p' fresh show ?thesis
    by simp
qed

theorem CreateProduct_round_trip_witness:
  "CreateProduct \<lparr>ID = 0, Name = ''Gizmo'', Price = 4.5, Quantity = 7, Category = ''toys''\<rparr>
     (store [Widget, Gadget] []) =
     ((None, \<lparr>ID = 3, Name = ''Gizmo'', Price = 4.5, Quantity = 7, Category = ''toys''\<rparr>),
      store [Widget, Gadget,
        \<lparr>ID = 3, Name = ''Gizmo'', Price = 4.5, Quantity = 7, Category = ''toys''\<rparr>] []
        \<lparr>seq := 3\<rparr>) \<and>
   hd_fault (store [Widget, Gadget,
        \<lparr>ID = 3, Name = ''Gizmo'', Price = 4.5, Quantity = 7, Category = ''toys''\<rparr>] []
        \<lparr>seq := 3\<rparr>) = None \<and>
   (\<exists>p. fst (GetProduct 3 (store [Widget, Gadget,
        \<lparr>ID = 3, Name = ''Gizmo'', Price = 4.5, Quantity = 7, Category = ''toys''\<rparr>] []
        \<lparr>seq := 3\<rparr>)) = Inr p \<and> ID p = 3 \<and> Name p = ''Gizmo'' \<and> Price p = 4.5 \<and>
      Quantity p = 7 \<and> Category p = ''toys'')"
proof -
  let ?g = "\<lparr>ID = 0, Name = ''Gizmo'', Price = 4.5::real, Quantity = 7, Category = ''toys''\<rparr>"
  let ?g' = "\<lparr>ID = 3, Name = ''Gizmo'', Price = 4.5::real, Quantity = 7, Category = ''toys''\<rparr>"
  let ?s' = "store [Widget, Gadget, ?g'] [] \<lparr>seq := 3\<rparr>"
  have run: "CreateProduct ?g (store [Widget, Gadget] []) = ((None, ?g'), ?s')"
    by (simp add: CreateProduct_def Exec_insert_def LastInsertId_def next_fault_def
        largest_id_def store_def Widget_def Gadget_def)
  have h: "hd_fault ?s' = None"
    by (simp add: hd_fault_def store_def)
  from CreateProduct_round_trip [OF run h]
  have "\<exists>p. fst (GetProduct (ID ?g') ?s') = Inr p \<and> ID p = ID ?g' \<and>
            Name p = Name ?g \<and> Price p = Price ?g \<and>
            Quantity p = Quantity ?g \<and> Category p = Category ?g"
    by (elim conjE)
  then have "\<exists>p. fst (GetProduct 3 ?s') = Inr p \<and> ID p = 3 \<and> Name p = ''Gizmo'' \<and>
      Price p = 4.5 \<and> Quantity p = 7 \<and> Category p = ''toys''"
    by (simp only: Product.select_convs)
  with run h show ?thesis
    by (simp only: simp_thms)
qed

text \<open>
  C10. A successful \<open>UpdateProduct\<close> changes no row's \<open>ID\<close> (in particular not the
  target's), keeps the number and order of the rows, and leaves every row whose id is
  not the product's exactly as it was. A successful \<open>DeleteProduct\<close> leaves exactly the
  rows whose id is not the deleted one, unchanged and in their order. Both succeed only
  for an id that has a row.
\<close>

theorem UpdateProduct_DeleteProduct_frame:
  "(UpdateProduct product ps = (None, ps') \<longrightarrow>
      find_row (ID product) (table ps) \<noteq> None \<and>
      map ID (table ps') = map ID (table ps) \<and>
      (\<forall>i < length (table ps).
         ID (table ps ! i) \<noteq> ID product \<longrightarrow> table ps' ! i = table ps ! i)) \<and>
   (DeleteProduct pid ps = (None, ps'') \<longrightarrow>
      find_row pid (table ps) \<noteq> None \<and>
      table ps'' = filter (\<lambda>r. ID r \<noteq> pid) (table ps))"
proof (intro conjI impI allI)
  assume u: "UpdateProduct product ps = (None, ps')"
  let ?f = "set_fields (Name product) (Price product) (Quantity product)
              (Category product) (ID product)"
  from u have tab: "table ps' = map ?f (table ps)"
    by (rule UpdateProduct_success(1))
  from u show "find_row (ID product) (table ps) \<noteq> None"
    by (rule UpdateProduct_success(2))
  from tab show "map ID (table ps') = map ID (table ps)"
    by simp
  fix i
  assume "i < length (table ps)" "ID (table ps ! i) \<noteq> ID product"
  with tab show "table ps' ! i = table ps ! i"
    by (simp add: set_fields_def)
next
  assume d: "DeleteProduct pid ps = (None, ps'')"
  then show "find_row pid (table ps) \<noteq> None"
    by (rule DeleteProduct_success(2))
  from d show "table ps'' = filter (\<lambda>r. ID r \<noteq> pid) (table ps)"
    by (rule DeleteProduct_success(1))
qed

theorem UpdateProduct_DeleteProduct_frame_witness:
  "UpdateProduct (Widget\<lparr>Quantity := 7\<rparr>) (store [Widget, Gadget] []) =
     (None, store [Widget\<lparr>Quantity := 7\<rparr>, Gadget] []) \<and>
   DeleteProduct 1 (store [Widget, Gadget] []) = (None, store [Gadget] []) \<and>
   map ID (table (store [Widget\<lparr>Quantity := 7\<rparr>, Gadget] [])) =
     map ID (table (store [Widget, Gadget] [])) \<and>
   table (store [Widget\<lparr>Quantity := 7\<rparr>, Gadget] []) ! 1 = table (store [Widget, Gadget] []) ! 1 \<and>
   table (store [Gadget] []) = filter (\<lambda>r. ID r \<noteq> 1) (table (store [Widget, Gadget] []))"
proof -
  have u: "UpdateProduct (Widget\<lparr>Quantity := 7\<rparr>) (store [Widget, Gadget] []) =
      (None, store [Widget\<lparr>Quantity := 7\<rparr>, Gadget] [])"
    by (simp add: UpdateProduct_def GetProduct_def QueryRow_Scan_def Exec_update_def
        next_fault_def find_row_def set_fields_def store_def Widget_def Gadget_def)
  have d: "DeleteProduct 1 (store [Widget, Gadget] []) = (None, store [Gadget] [])"
    by (simp add: DeleteProduct_def GetProduct_def QueryRow_Scan_def Exec_delete_def
        next_fault_def find_row_def store_def Widget_def Gadget_def)
  have i: "1 < length (table (store [Widget, Gadget] []))"
    by (simp add: store_def)
  have n: "ID (table (store [Widget, Gadget] []) ! 1) \<noteq> ID (Widget\<lparr>Quantity := 7\<rparr>)"
    by (simp add: store_def Widget_def Gadget_def)
  from UpdateProduct_DeleteProduct_frame
         [of "Widget\<lparr>Quantity := 7\<rparr>" "store [Widget, Gadget] []"
             "store [Widget\<lparr>Quantity := 7\<rparr>, Gadget] []" 1 "store [Gadget] []"]
       u d i n
  show ?thesis
    by blast
qed

end
